theory Spec2Isabelle
  imports Complex_Main "HOL-Library.Multiset"
begin

section \<open>The schemas of \<^verbatim>\<open>app/types/schemas.ts\<close>\<close>

text \<open>
  A JavaScript \<^verbatim>\<open>number\<close> is taken as a rational: the finite numbers, which is what
  \<^verbatim>\<open>z.number()\<close> lets through. Strings are character lists, so \<^verbatim>\<open>.min(1)\<close> on a
  string is "not the empty list".
\<close>

type_synonym number = rat

text \<open>\<^verbatim>\<open>z.enum(['navigate', 'scroll-to-top', 'placeholder'])\<close>, the type of \<^verbatim>\<open>action\<close>.\<close>

datatype action = Navigate | ScrollToTop | Placeholder

text \<open>\<^verbatim>\<open>NavigationLink\<close>; the field \<^verbatim>\<open>id\<close> is written \<open>id'\<close>.\<close>

record NavigationLink =
  id' :: string
  label :: string
  href :: string
  action :: action
  order :: number

record NavigationConfig =
  links :: "NavigationLink list"

record CopyrightInfo =
  year :: number
  owner :: string

text \<open>
  A failed \<^verbatim>\<open>parse\<close> throws a \<^verbatim>\<open>ZodError\<close>. The issues the error carries are not
  modelled: a schema is the test that decides whether \<^verbatim>\<open>parse\<close> returns or throws.
\<close>

datatype error = ZodError

text \<open>\<^verbatim>\<open>val.startsWith(p)\<close>\<close>

definition startsWith :: "string \<Rightarrow> string \<Rightarrow> bool" where
  "startsWith val p = (take (length p) val = p)"

text \<open>\<^verbatim>\<open>Number.isInteger\<close>\<close>

definition isInteger :: "number \<Rightarrow> bool" where
  "isInteger q = (of_int \<lfloor>q\<rfloor> = q)"

text \<open>\<^verbatim>\<open>Number.MAX_SAFE_INTEGER\<close>, which is \<open>2^53 - 1\<close>, and \<^verbatim>\<open>Number.isSafeInteger\<close>.\<close>

definition MAX_SAFE_INTEGER :: number where
  "MAX_SAFE_INTEGER = 9007199254740991"

definition isSafeInteger :: "number \<Rightarrow> bool" where
  "isSafeInteger q \<longleftrightarrow> isInteger q \<and> \<bar>q\<bar> \<le> MAX_SAFE_INTEGER"

text \<open>
  \<^verbatim>\<open>.int()\<close> on a number schema, in zod 4, the version the repository uses: the number
  must be an integer, and a safe one.
\<close>

definition int' :: "number \<Rightarrow> bool" where
  "int' q \<longleftrightarrow> isInteger q \<and> isSafeInteger q"

text \<open>\<^verbatim>\<open>new Set(xs).size\<close>: the number of different entries of \<open>xs\<close>.\<close>

definition setSize :: "'a list \<Rightarrow> nat" where
  "setSize xs = length (remdups xs)"

text \<open>
  \<^verbatim>\<open>NavigationLinkSchema\<close>, every check with its message. The test
  \<^verbatim>\<open>z.string().url().safeParse(val).success\<close> belongs to the zod library; it is the
  parameter \<open>isUrl\<close>. The \<^verbatim>\<open>action\<close> check is the type \<^typ>\<open>action\<close>.
\<close>

definition NavigationLinkSchema :: "(string \<Rightarrow> bool) \<Rightarrow> NavigationLink \<Rightarrow> bool" where
  "NavigationLinkSchema isUrl link \<longleftrightarrow>
     1 \<le> length (id' link)  \<comment> \<open>Link ID cannot be empty\<close>
   \<and> 1 \<le> length (label link)  \<comment> \<open>Link label cannot be empty\<close>
   \<and> 1 \<le> length (href link)  \<comment> \<open>Link href cannot be empty\<close>
   \<and> (startsWith (href link) ''#'' \<or> startsWith (href link) ''/'' \<or> isUrl (href link))
       \<comment> \<open>Must be a valid URL, path, or anchor link\<close>
   \<and> int' (order link)  \<comment> \<open>Order must be an integer\<close>
   \<and> 0 \<le> order link  \<comment> \<open>Order must be non-negative\<close>"

text \<open>
  \<^verbatim>\<open>NavigationConfigSchema\<close>: every link passes its schema, then \<^verbatim>\<open>.min(1)\<close> and the two
  \<^verbatim>\<open>.refine\<close> tests on the array.
\<close>

definition NavigationConfigSchema :: "(string \<Rightarrow> bool) \<Rightarrow> NavigationConfig \<Rightarrow> bool" where
  "NavigationConfigSchema isUrl cfg \<longleftrightarrow>
     list_all (NavigationLinkSchema isUrl) (links cfg)
   \<and> 1 \<le> length (links cfg)  \<comment> \<open>Navigation must have at least one link\<close>
   \<and> (let ids = map id' (links cfg) in setSize ids = length ids)
       \<comment> \<open>All link IDs must be unique\<close>
   \<and> (let orders = map order (links cfg) in setSize orders = length orders)
       \<comment> \<open>All link orders must be unique\<close>"

text \<open>\<^verbatim>\<open>schema.parse(v)\<close>: the value when every check passes, the thrown error otherwise.\<close>

definition parse :: "('a \<Rightarrow> bool) \<Rightarrow> 'a \<Rightarrow> error + 'a" where
  "parse schema v = (if schema v then Inr v else Inl ZodError)"

text \<open>\<^verbatim>\<open>CopyrightInfoSchema\<close>\<close>

definition CopyrightInfoSchema :: "CopyrightInfo \<Rightarrow> bool" where
  "CopyrightInfoSchema info \<longleftrightarrow>
     int' (year info)  \<comment> \<open>Year must be an integer\<close>
   \<and> 1 \<le> length (owner info)  \<comment> \<open>Copyright owner cannot be empty\<close>"

section \<open>The constants of \<^verbatim>\<open>app/lib/constants.ts\<close>\<close>

definition NAV_LINKS :: NavigationConfig where
  "NAV_LINKS = \<lparr>links =
     [\<lparr>id' = ''home'', label = ''Home'', href = ''/'', action = ScrollToTop, order = 0\<rparr>,
      \<lparr>id' = ''work'', label = ''Work'', href = ''#'', action = Placeholder, order = 1\<rparr>,
      \<lparr>id' = ''about'', label = ''About'', href = ''#'', action = Placeholder, order = 2\<rparr>,
      \<lparr>id' = ''contact'', label = ''Contact'', href = ''#'', action = Placeholder, order = 3\<rparr>]\<rparr>"

text \<open>
  The module validates its catalog when it is loaded:
  \<^verbatim>\<open>NavigationConfigSchema.parse(NAV_LINKS)\<close>. \<open>loadCatalog\<close> is that statement for any
  catalog written in the place of \<^verbatim>\<open>NAV_LINKS\<close>.
\<close>

definition loadCatalog :: "(string \<Rightarrow> bool) \<Rightarrow> NavigationConfig \<Rightarrow> error + NavigationConfig" where
  "loadCatalog isUrl cfg = parse (NavigationConfigSchema isUrl) cfg"

definition COPYRIGHT_OWNER :: string where
  "COPYRIGHT_OWNER = ''Yarson''"

text \<open>
  \<^verbatim>\<open>getCopyrightInfo\<close>. \<^verbatim>\<open>new Date().getFullYear()\<close> reads the clock; the argument
  \<open>fullYear\<close> is the calendar year the clock shows at the moment of the call.
\<close>

definition getCopyrightInfo :: "int \<Rightarrow> CopyrightInfo" where
  "getCopyrightInfo fullYear = \<lparr>year = of_int fullYear, owner = COPYRIGHT_OWNER\<rparr>"

text \<open>
  A whole number inside a template literal is written in decimal digits, with a minus
  sign below zero (a safe integer is far below the \<open>10^21\<close> where JavaScript changes to
  exponent notation).
\<close>

definition digitChar :: "nat \<Rightarrow> char" where
  "digitChar d = ''0123456789'' ! d"

fun digitsOf :: "nat \<Rightarrow> string" where
  "digitsOf n = (if n < 10 then [digitChar n] else digitsOf (n div 10) @ [digitChar (n mod 10)])"

definition numberToString :: "int \<Rightarrow> string" where
  "numberToString n = (if n < 0 then CHR ''-'' # digitsOf (nat (- n)) else digitsOf (nat n))"

text \<open>The copyright sign, code point \<open>0xA9\<close>.\<close>

definition copyrightSign :: char where
  "copyrightSign = CHR 0xA9"

text \<open>
  \<^verbatim>\<open>getCopyrightText\<close>: builds the info from the clock, validates it, formats it. Nothing
  is kept between two calls: the function has no state but the clock it reads. Past the
  validation the year is a whole number, written by its digits.
\<close>

definition getCopyrightText :: "int \<Rightarrow> error + string" where
  "getCopyrightText fullYear =
     (let info = getCopyrightInfo fullYear in
      case parse CopyrightInfoSchema info of
        Inl e \<Rightarrow> Inl e
      | Inr _ \<Rightarrow> Inr (copyrightSign # '' '' @ numberToString \<lfloor>year info\<rfloor> @ '' '' @ owner info))"

section \<open>Arrays in the store, and sorting\<close>

text \<open>
  The comparator of both components, \<^verbatim>\<open>(a, b) => a.order - b.order\<close>.
\<close>

definition compareOrder :: "NavigationLink \<Rightarrow> NavigationLink \<Rightarrow> number" where
  "compareOrder a b = order a - order b"

text \<open>
  \<^verbatim>\<open>Array.prototype.sort\<close> with a comparator is a stable sort: an element goes before the
  first element it does not compare greater than. \<open>sort'\<close> is the sorted value of an
  array value.
\<close>

fun insertBy :: "('a \<Rightarrow> 'a \<Rightarrow> number) \<Rightarrow> 'a \<Rightarrow> 'a list \<Rightarrow> 'a list" where
  "insertBy cmp x [] = [x]"
| "insertBy cmp x (y # ys) = (if cmp x y \<le> 0 then x # y # ys else y # insertBy cmp x ys)"

definition sort' :: "('a \<Rightarrow> 'a \<Rightarrow> number) \<Rightarrow> 'a list \<Rightarrow> 'a list" where
  "sort' cmp xs = foldr (insertBy cmp) xs []"

text \<open>
  Arrays are objects: two names can hold the same array, and \<^verbatim>\<open>sort\<close> changes the array
  it is called on. The store is the list of the arrays allocated so far; an address is a
  position in it.
\<close>

type_synonym addr = nat

type_synonym store = "NavigationLink list list"

text \<open>\<^verbatim>\<open>[...a]\<close>: a new array with the elements of the array at \<open>a\<close>.\<close>

definition spread :: "store \<Rightarrow> addr \<Rightarrow> store \<times> addr" where
  "spread s a = (s @ [s ! a], length s)"

text \<open>\<^verbatim>\<open>a.sort(cmp)\<close>: sorts the array at \<open>a\<close> in place and returns \<open>a\<close>.\<close>

definition sortInPlace :: "(NavigationLink \<Rightarrow> NavigationLink \<Rightarrow> number) \<Rightarrow> store \<Rightarrow> addr \<Rightarrow> store \<times> addr" where
  "sortInPlace cmp s a = (s[a := sort' cmp (s ! a)], a)"

text \<open>
  \<^verbatim>\<open>[...links].sort((a, b) => a.order - b.order)\<close>, the \<^verbatim>\<open>sortedLinks\<close> of both
  components. (In \<^verbatim>\<open>Navigation\<close> it stands under \<^verbatim>\<open>useMemo\<close>, which only saves the
  recomputation while \<^verbatim>\<open>links\<close> is the same array.)
\<close>

definition sortedLinks :: "store \<Rightarrow> addr \<Rightarrow> store \<times> addr" where
  "sortedLinks s linksRef = (case spread s linksRef of (s1, copy) \<Rightarrow> sortInPlace compareOrder s1 copy)"

section \<open>The rendered tree\<close>

text \<open>
  What a component returns: elements with their attributes and children. Classes, svg
  geometry and animation settings are left out; keys, hrefs, accessible names, refs and
  click handlers are kept.
\<close>

datatype handler = ToggleMobileMenu

datatype refName = MenuRef | ButtonRef

datatype attr = Str string | Flag bool | OnClick handler | Ref refName

datatype vnode = Element string "(string \<times> attr) list" "vnode list" | Text string

text \<open>The \<^verbatim>\<open><li key={link.id}><Link href={link.href}>{link.label}</Link></li>\<close> of all three lists.\<close>

definition linkItem :: "NavigationLink \<Rightarrow> vnode" where
  "linkItem link =
     Element ''li'' [(''key'', Str (id' link))]
       [Element ''Link'' [(''href'', Str (href link))] [Text (label link)]]"

text \<open>The fragment \<^verbatim>\<open>Navigation\<close> returns: the desktop list, the button, and the drawer when open.\<close>

record fragment =
  desktop :: vnode
  button :: vnode
  drawer :: "vnode option"

definition renderNavigation :: "NavigationLink list \<Rightarrow> string \<Rightarrow> bool \<Rightarrow> fragment" where
  "renderNavigation sortedList ariaLabel isOpen =
     \<lparr>desktop =
        Element ''nav'' [(''aria-label'', Str ariaLabel)]
          [Element ''ul'' [] (map linkItem sortedList)],
      button =
        Element ''button''
          [(''ref'', Ref ButtonRef), (''onClick'', OnClick ToggleMobileMenu),
           (''aria-expanded'', Flag isOpen), (''aria-label'', Str ''Toggle menu'')]
          [Element ''svg'' [] [Element ''path'' [] []]],
      drawer =
        (if isOpen then
           Some (Element ''motion.div'' [(''ref'', Ref MenuRef)]
             [Element ''nav'' [(''aria-label'', Str ''Mobile navigation'')]
               [Element ''ul'' [] (map linkItem sortedList)]])
         else None)\<rparr>"

text \<open>
  \<^verbatim>\<open>Navigation\<close>, one render: \<open>linksRef\<close> is the address of the array in the \<^verbatim>\<open>links\<close> prop,
  \<open>isOpen\<close> the current value of the state \<^verbatim>\<open>isMobileMenuOpen\<close>.
\<close>

definition Navigation :: "store \<Rightarrow> addr \<Rightarrow> string \<Rightarrow> bool \<Rightarrow> store \<times> fragment" where
  "Navigation s linksRef ariaLabel isOpen =
     (case sortedLinks s linksRef of (s1, sortedRef) \<Rightarrow>
        (s1, renderNavigation (s1 ! sortedRef) ariaLabel isOpen))"

text \<open>
  \<^verbatim>\<open>Footer\<close>: \<open>navLinks\<close> is the address of \<^verbatim>\<open>NAV_LINKS.links\<close>, \<open>fullYear\<close> the year on
  the clock. The render throws when \<^verbatim>\<open>getCopyrightText\<close> does.
\<close>

definition Footer :: "store \<Rightarrow> addr \<Rightarrow> int \<Rightarrow> store \<times> (error + vnode)" where
  "Footer s navLinks fullYear =
     (case sortedLinks s navLinks of (s1, sortedRef) \<Rightarrow>
        (s1, case getCopyrightText fullYear of
               Inl e \<Rightarrow> Inl e
             | Inr copyrightText \<Rightarrow>
                 Inr (Element ''footer'' []
                   [Element ''nav'' [(''aria-label'', Str ''Footer navigation'')]
                      [Element ''ul'' [] (map linkItem (s1 ! sortedRef))],
                    Element ''p'' [] [Text copyrightText]])))"

text \<open>\<^verbatim>\<open>Header\<close> hands the array of the catalog to \<^verbatim>\<open>Navigation\<close>, named "Main navigation".\<close>

definition Header :: "store \<Rightarrow> addr \<Rightarrow> bool \<Rightarrow> store \<times> fragment" where
  "Header s navLinks isOpen = Navigation s navLinks ''Main navigation'' isOpen"

text \<open>The text of a node, and the labels of the links under a node, in document order.\<close>

fun textOf :: "vnode \<Rightarrow> string" where
  "textOf (Text t) = t"
| "textOf (Element tag attrs children) = concat (map textOf children)"

fun linksOf :: "vnode \<Rightarrow> vnode list" where
  "linksOf (Text t) = []"
| "linksOf (Element tag attrs children) =
     (if tag = ''Link'' then [Element tag attrs children] else concat (map linksOf children))"

definition linkLabels :: "vnode \<Rightarrow> string list" where
  "linkLabels v = map textOf (linksOf v)"

section \<open>The menu state of \<^verbatim>\<open>Navigation\<close> and its listeners\<close>

text \<open>
  The places of the document an event can have as its target: the toggle button and the
  icon inside it, the drawer panel and the links inside it, the links of the desktop
  list, and everything else on the page.
\<close>

datatype node = Toggle | ToggleIcon | Drawer | DrawerLink nat | InlineLink nat | Elsewhere

text \<open>\<^verbatim>\<open>a.contains(b)\<close>: \<open>b\<close> is \<open>a\<close> or lies inside \<open>a\<close>, as the rendered tree nests them.\<close>

fun contains :: "node \<Rightarrow> node \<Rightarrow> bool" where
  "contains Toggle b = (b = Toggle \<or> b = ToggleIcon)"
| "contains Drawer b = (case b of Drawer \<Rightarrow> True | DrawerLink i \<Rightarrow> True | _ \<Rightarrow> False)"
| "contains a b = (a = b)"

text \<open>
  The two closures an effect run creates; the number tells the runs apart, as
  \<^verbatim>\<open>removeEventListener\<close> removes a listener by its identity.
\<close>

datatype listener = HandleClickOutside nat | HandleEscape nat

datatype event = MouseDown node | KeyDown node string | KeyUp node string | Click node

fun eventType :: "event \<Rightarrow> string" where
  "eventType (MouseDown t) = ''mousedown''"
| "eventType (KeyDown t k) = ''keydown''"
| "eventType (KeyUp t k) = ''keyup''"
| "eventType (Click t) = ''click''"

fun target :: "event \<Rightarrow> node" where
  "target (MouseDown t) = t"
| "target (KeyDown t k) = t"
| "target (KeyUp t k) = t"
| "target (Click t) = t"

text \<open>\<^verbatim>\<open>event.key\<close>, undefined on a mouse event.\<close>

fun key :: "event \<Rightarrow> string option" where
  "key (KeyDown t k) = Some k"
| "key (KeyUp t k) = Some k"
| "key _ = None"

text \<open>
  One mounted \<^verbatim>\<open>Navigation\<close> and what it touches: its state, its two refs, the listeners
  on \<^verbatim>\<open>document\<close>, the cleanup the last effect run returned (the listeners it removes),
  the number of effect runs that created closures, the hrefs that link activations
  followed, and the location of the page (its path and fragment, or the whole URL once
  the page has left the site). The scroll position is not part of the state: the
  component contains no scroll call.
\<close>

record widget =
  mounted :: bool
  isMobileMenuOpen :: bool
  menuRef :: "node option"
  buttonRef :: "node option"
  listeners :: "(string \<times> listener) list"
  cleanup :: "(string \<times> listener) list option"
  effectRuns :: nat
  followed :: "string list"
  location :: string

definition closeMobileMenu :: "widget \<Rightarrow> widget" where
  "closeMobileMenu w = w\<lparr>isMobileMenuOpen := False\<rparr>"

definition handleClickOutside :: "node \<Rightarrow> widget \<Rightarrow> widget" where
  "handleClickOutside t w =
     (case menuRef w of
        None \<Rightarrow> w
      | Some m \<Rightarrow>
          if \<not> contains m t then
            (case buttonRef w of
               None \<Rightarrow> w
             | Some b \<Rightarrow> if \<not> contains b t then closeMobileMenu w else w)
          else w)"

definition handleEscape :: "string option \<Rightarrow> widget \<Rightarrow> widget" where
  "handleEscape k w = (if k = Some ''Escape'' then closeMobileMenu w else w)"

fun runListener :: "event \<Rightarrow> listener \<Rightarrow> widget \<Rightarrow> widget" where
  "runListener ev (HandleClickOutside g) w = handleClickOutside (target ev) w"
| "runListener ev (HandleEscape g) w = handleEscape (key ev) w"

text \<open>
  \<^verbatim>\<open>document.addEventListener\<close> (a listener already there for the type is not added
  twice) and \<^verbatim>\<open>document.removeEventListener\<close>.
\<close>

definition addEventListener :: "string \<Rightarrow> listener \<Rightarrow> widget \<Rightarrow> widget" where
  "addEventListener ty l w =
     (if (ty, l) \<in> set (listeners w) then w else w\<lparr>listeners := listeners w @ [(ty, l)]\<rparr>)"

definition removeEventListener :: "string \<Rightarrow> listener \<Rightarrow> widget \<Rightarrow> widget" where
  "removeEventListener ty l w = w\<lparr>listeners := removeAll (ty, l) (listeners w)\<rparr>"

text \<open>An event reaching \<^verbatim>\<open>document\<close> runs the listeners registered for its type, in order.\<close>

definition dispatchEvent :: "event \<Rightarrow> widget \<Rightarrow> widget" where
  "dispatchEvent ev w =
     fold (\<lambda>(ty, l) v. if ty = eventType ev then runListener ev l v else v) (listeners w) w"

text \<open>
  The body of the \<^verbatim>\<open>useEffect\<close>: nothing when the menu is closed; otherwise it creates
  the two handlers, registers them and returns the cleanup that removes them.
\<close>

definition effect :: "widget \<Rightarrow> widget" where
  "effect w =
     (if \<not> isMobileMenuOpen w then w\<lparr>cleanup := None\<rparr>
      else
        let g = effectRuns w;
            w1 = addEventListener ''mousedown'' (HandleClickOutside g) w;
            w2 = addEventListener ''keydown'' (HandleEscape g) w1
        in w2\<lparr>cleanup := Some [(''mousedown'', HandleClickOutside g), (''keydown'', HandleEscape g)],
               effectRuns := g + 1\<rparr>)"

definition runCleanup :: "widget \<Rightarrow> widget" where
  "runCleanup w =
     (case cleanup w of
        None \<Rightarrow> w
      | Some ls \<Rightarrow> (fold (\<lambda>(ty, l). removeEventListener ty l) ls w)\<lparr>cleanup := None\<rparr>)"

text \<open>
  What React does after a render: it attaches the refs of the rendered elements (the
  button always, the drawer while it is rendered), and when the dependency
  \<^verbatim>\<open>[isMobileMenuOpen]\<close> differs from its value \<open>prev\<close> at the last run it runs the
  pending cleanup and then the effect.
\<close>

definition commit :: "bool \<Rightarrow> widget \<Rightarrow> widget" where
  "commit prev w =
     (let w1 = w\<lparr>menuRef := (if isMobileMenuOpen w then Some Drawer else None),
                  buttonRef := Some Toggle\<rparr>
      in if isMobileMenuOpen w1 = prev then w1 else effect (runCleanup w1))"

text \<open>
  Mounting: \<^verbatim>\<open>useState(false)\<close>, the first render, the first effect run. The page is the
  homepage, the only route of the site, at the path \<^verbatim>\<open>/\<close>.
\<close>

definition mount :: widget where
  "mount = effect \<lparr>mounted = True, isMobileMenuOpen = False, menuRef = None,
     buttonRef = Some Toggle, listeners = [], cleanup = None, effectRuns = 0, followed = [],
     location = ''/''\<rparr>"

text \<open>Unmounting runs the pending cleanup and detaches the refs.\<close>

definition unmount :: "widget \<Rightarrow> widget" where
  "unmount w = (runCleanup w)\<lparr>mounted := False, menuRef := None, buttonRef := None\<rparr>"

text \<open>
  The element a click lands on: a click on the icon bubbles to the button; the links are
  the \<^verbatim>\<open>Link\<close> elements of the desktop list and of the drawer, in document order.
\<close>

definition nthOpt :: "'a list \<Rightarrow> nat \<Rightarrow> 'a option" where
  "nthOpt xs i = (if i < length xs then Some (xs ! i) else None)"

fun elementAt :: "fragment \<Rightarrow> node \<Rightarrow> vnode option" where
  "elementAt f Toggle = Some (button f)"
| "elementAt f ToggleIcon = Some (button f)"
| "elementAt f (InlineLink i) = nthOpt (linksOf (desktop f)) i"
| "elementAt f (DrawerLink i) = (case drawer f of None \<Rightarrow> None | Some d \<Rightarrow> nthOpt (linksOf d) i)"
| "elementAt f _ = None"

fun runHandler :: "handler \<Rightarrow> widget \<Rightarrow> widget" where
  "runHandler ToggleMobileMenu w = w\<lparr>isMobileMenuOpen := \<not> isMobileMenuOpen w\<rparr>"

text \<open>
  The location after a navigation to an href: a fragment replaces the fragment of the
  current location; a path from the root or an absolute URL, the other forms the schema
  admits, becomes the location.
\<close>

definition resolve :: "string \<Rightarrow> string \<Rightarrow> string" where
  "resolve current u =
     (if startsWith u ''#'' then takeWhile (\<lambda>c. c \<noteq> CHR ''#'') current @ u else u)"

text \<open>
  Activating an element: its \<^verbatim>\<open>onClick\<close> handler runs if it has one. No handler of the
  component calls \<^verbatim>\<open>preventDefault\<close>, so an element with an \<^verbatim>\<open>href\<close> is then navigated
  to: \<^verbatim>\<open>Link\<close> hands an href of the site to the router and leaves any other to the
  browser, and either way the location becomes that of the href.
\<close>

fun activate :: "vnode \<Rightarrow> widget \<Rightarrow> widget" where
  "activate (Text t) w = w"
| "activate (Element tag attrs children) w =
     (let w1 = (case map_of attrs ''onClick'' of Some (OnClick h) \<Rightarrow> runHandler h w | _ \<Rightarrow> w)
      in case map_of attrs ''href'' of
           Some (Str u) \<Rightarrow>
             w1\<lparr>followed := followed w1 @ [u], location := resolve (location w1) u\<rparr>
         | _ \<Rightarrow> w1)"

text \<open>
  The handlers an event runs: for a click the handler of the element under it, then for
  every event the listeners on \<^verbatim>\<open>document\<close>. \<open>ls\<close> is the value of the \<^verbatim>\<open>links\<close> prop.
\<close>

definition deliver :: "NavigationLink list \<Rightarrow> event \<Rightarrow> widget \<Rightarrow> widget" where
  "deliver ls ev w =
     (let f = renderNavigation (sort' compareOrder ls) ''Main navigation'' (isMobileMenuOpen w);
          w1 = (case ev of
                  Click t \<Rightarrow> (case elementAt f t of None \<Rightarrow> w | Some el \<Rightarrow> activate el w)
                | _ \<Rightarrow> w)
      in dispatchEvent ev w1)"

text \<open>
  One event on the page. A mounted widget handles it, renders again and commits; after
  unmount only listeners still on \<^verbatim>\<open>document\<close> would run.
\<close>

definition step :: "NavigationLink list \<Rightarrow> event \<Rightarrow> widget \<Rightarrow> widget" where
  "step ls ev w =
     (if mounted w then commit (isMobileMenuOpen w) (deliver ls ev w) else dispatchEvent ev w)"

text \<open>The states a widget can be in: mounted, then any events, and at most one unmount.\<close>

inductive reachable :: "NavigationLink list \<Rightarrow> widget \<Rightarrow> bool" for ls where
  reachable_mount: "reachable ls mount"
| reachable_step: "reachable ls w \<Longrightarrow> reachable ls (step ls ev w)"
| reachable_unmount: "reachable ls w \<Longrightarrow> mounted w \<Longrightarrow> reachable ls (unmount w)"

text \<open>The menu opened by one click on the toggle, for the catalog of the repository.\<close>

definition opened :: widget where
  "opened = step (links NAV_LINKS) (Click Toggle) mount"

text \<open>
  The two entries the effect run numbered \<open>g\<close> puts on \<^verbatim>\<open>document\<close>. \<open>frame w v\<close> says
  that \<open>v\<close> differs from \<open>w\<close> at most in the menu state, the followed hrefs and the
  location. \<open>inv\<close>
  is what holds of a widget between two events: while mounted and open it holds the two
  listeners of its last effect run, the pending cleanup removes these two, and both refs
  are attached; otherwise it holds no listener and no cleanup is pending.
\<close>

definition held :: "nat \<Rightarrow> (string \<times> listener) list" where
  "held g = [(''mousedown'', HandleClickOutside g), (''keydown'', HandleEscape g)]"

definition frame :: "widget \<Rightarrow> widget \<Rightarrow> bool" where
  "frame w v \<longleftrightarrow>
     mounted v = mounted w \<and> menuRef v = menuRef w \<and> buttonRef v = buttonRef w
     \<and> listeners v = listeners w \<and> cleanup v = cleanup w \<and> effectRuns v = effectRuns w"

definition inv :: "widget \<Rightarrow> bool" where
  "inv w \<longleftrightarrow>
     (if mounted w \<and> isMobileMenuOpen w
      then 0 < effectRuns w \<and> listeners w = held (effectRuns w - 1)
           \<and> cleanup w = Some (held (effectRuns w - 1))
           \<and> menuRef w = Some Drawer \<and> buttonRef w = Some Toggle
      else listeners w = [] \<and> cleanup w = None)"

text \<open>A catalog whose scroll-to-top link has the href of another route.\<close>

definition aboutTop :: "NavigationLink list" where
  "aboutTop =
     [\<lparr>id' = ''top'', label = ''Top'', href = ''/about'', action = ScrollToTop, order = 0\<rparr>]"

text \<open>The links of the catalog, written in another order.\<close>

definition shuffled :: "NavigationLink list" where
  "shuffled =
     [\<lparr>id' = ''contact'', label = ''Contact'', href = ''#'', action = Placeholder, order = 3\<rparr>,
      \<lparr>id' = ''home'', label = ''Home'', href = ''/'', action = ScrollToTop, order = 0\<rparr>,
      \<lparr>id' = ''about'', label = ''About'', href = ''#'', action = Placeholder, order = 2\<rparr>,
      \<lparr>id' = ''work'', label = ''Work'', href = ''#'', action = Placeholder, order = 1\<rparr>]"

text \<open>A catalog whose only link has an empty label, and a URL test that accepts nothing.\<close>

definition unlabelled :: NavigationConfig where
  "unlabelled = \<lparr>links =
     [\<lparr>id' = ''home'', label = [], href = ''/'', action = Navigate, order = 0\<rparr>]\<rparr>"

definition noUrl :: "string \<Rightarrow> bool" where
  "noUrl val = False"

text \<open>A catalog whose only link has the order \<open>2^53\<close>, the first integer that is not safe.\<close>

definition unsafeOrder :: NavigationConfig where
  "unsafeOrder = \<lparr>links =
     [\<lparr>id' = ''home'', label = ''Home'', href = ''/'', action = Navigate,
       order = 9007199254740992\<rparr>]\<rparr>"

section \<open>Catalog construction\<close>

lemma setSize_distinct: "setSize xs = length xs \<longleftrightarrow> distinct xs"
  by (simp add: setSize_def length_remdups_eq)

lemma parse_Inr: "parse schema v = Inr w \<longleftrightarrow> schema v \<and> w = v"
  by (auto simp: parse_def)

lemma parse_Inl: "(\<exists>e. parse schema v = Inl e) \<longleftrightarrow> \<not> schema v"
  by (auto simp: parse_def)

lemma int'_iff: "int' q \<longleftrightarrow> isInteger q \<and> \<bar>q\<bar> \<le> 9007199254740991"
  by (auto simp: int'_def isSafeInteger_def MAX_SAFE_INTEGER_def)

lemma min_1_iff: "1 \<le> length xs \<longleftrightarrow> xs \<noteq> []"
  by (cases xs) simp_all

lemma NavigationLinkSchema_iff:
  "NavigationLinkSchema isUrl l \<longleftrightarrow>
     id' l \<noteq> [] \<and> label l \<noteq> [] \<and> href l \<noteq> []
     \<and> (startsWith (href l) ''#'' \<or> startsWith (href l) ''/'' \<or> isUrl (href l))
     \<and> isInteger (order l) \<and> 0 \<le> order l \<and> order l \<le> 9007199254740991"
proof (cases "0 \<le> order l")
  case True
  then have a: "\<bar>order l\<bar> = order l"
    by simp
  show ?thesis
    unfolding NavigationLinkSchema_def int'_iff min_1_iff a by blast
next
  case False
  then show ?thesis
    unfolding NavigationLinkSchema_def by blast
qed

lemma NavigationConfigSchema_iff:
  "NavigationConfigSchema isUrl cfg \<longleftrightarrow>
     (\<forall>l \<in> set (links cfg). NavigationLinkSchema isUrl l)
     \<and> links cfg \<noteq> []
     \<and> distinct (map id' (links cfg))
     \<and> distinct (map order (links cfg))"
  unfolding NavigationConfigSchema_def Let_def setSize_distinct list_all_iff min_1_iff
  by blast

text \<open>
  C1, as the code has it. Loading a catalog succeeds exactly when the catalog is
  non-empty, its ids are pairwise distinct, its orders are pairwise distinct, and every
  link passes \<^verbatim>\<open>NavigationLinkSchema\<close>: its id, label and href are not empty, its href
  starts with \<^verbatim>\<open>#\<close> or \<^verbatim>\<open>/\<close> or is a URL, and its order is an integer from 0 to
  \<open>2^53 - 1\<close>. The load then returns the catalog. Otherwise the parse throws: in
  particular it throws for every catalog that is empty, repeats an id or repeats an
  order.
\<close>

theorem loadCatalog_succeeds_iff:
  "(loadCatalog isUrl cfg = Inr cfg \<longleftrightarrow>
      links cfg \<noteq> [] \<and> distinct (map id' (links cfg)) \<and> distinct (map order (links cfg))
      \<and> (\<forall>l \<in> set (links cfg).
            id' l \<noteq> [] \<and> label l \<noteq> [] \<and> href l \<noteq> []
            \<and> (startsWith (href l) ''#'' \<or> startsWith (href l) ''/'' \<or> isUrl (href l))
            \<and> isInteger (order l) \<and> 0 \<le> order l \<and> order l \<le> 9007199254740991))
   \<and> ((\<exists>e. loadCatalog isUrl cfg = Inl e) \<longleftrightarrow> loadCatalog isUrl cfg \<noteq> Inr cfg)
   \<and> (links cfg = [] \<or> \<not> distinct (map id' (links cfg)) \<or> \<not> distinct (map order (links cfg))
        \<longrightarrow> (\<exists>e. loadCatalog isUrl cfg = Inl e))"
proof (intro conjI)
  show "loadCatalog isUrl cfg = Inr cfg \<longleftrightarrow>
      links cfg \<noteq> [] \<and> distinct (map id' (links cfg)) \<and> distinct (map order (links cfg))
      \<and> (\<forall>l \<in> set (links cfg).
            id' l \<noteq> [] \<and> label l \<noteq> [] \<and> href l \<noteq> []
            \<and> (startsWith (href l) ''#'' \<or> startsWith (href l) ''/'' \<or> isUrl (href l))
            \<and> isInteger (order l) \<and> 0 \<le> order l \<and> order l \<le> 9007199254740991)"
    unfolding loadCatalog_def parse_Inr NavigationConfigSchema_iff NavigationLinkSchema_iff
    by blast
  show "(\<exists>e. loadCatalog isUrl cfg = Inl e) \<longleftrightarrow> loadCatalog isUrl cfg \<noteq> Inr cfg"
    unfolding loadCatalog_def parse_Inl by (simp add: parse_Inr)
  show "links cfg = [] \<or> \<not> distinct (map id' (links cfg)) \<or> \<not> distinct (map order (links cfg))
        \<longrightarrow> (\<exists>e. loadCatalog isUrl cfg = Inl e)"
    unfolding loadCatalog_def parse_Inl NavigationConfigSchema_iff by blast
qed

text \<open>The catalog of the repository loads, whatever the URL test.\<close>

theorem loadCatalog_succeeds_iff_witness:
  "loadCatalog noUrl NAV_LINKS = Inr NAV_LINKS
   \<and> links NAV_LINKS \<noteq> [] \<and> distinct (map id' (links NAV_LINKS))
   \<and> distinct (map order (links NAV_LINKS))"
  using loadCatalog_succeeds_iff [of noUrl NAV_LINKS]
  by (simp add: NAV_LINKS_def startsWith_def isInteger_def)

text \<open>
  C1 as the specification words it fails: the catalog \<open>unlabelled\<close> is non-empty and
  has distinct ids and distinct orders, and loading it throws, since its link has an
  empty label.
\<close>

theorem loadCatalog_valid_counterexample:
  "links unlabelled \<noteq> [] \<and> distinct (map id' (links unlabelled))
   \<and> distinct (map order (links unlabelled))
   \<and> loadCatalog noUrl unlabelled = Inl ZodError"
  by (simp add: unlabelled_def loadCatalog_def parse_def NavigationConfigSchema_def
      NavigationLinkSchema_def)

text \<open>
  The bound on the order is met: a link with the order \<open>2^53\<close> makes the load throw,
  with \<open>2^53 - 1\<close> in its place the catalog loads.
\<close>

lemma loadCatalog_unsafeOrder:
  "loadCatalog noUrl unsafeOrder = Inl ZodError"
  "loadCatalog noUrl (unsafeOrder\<lparr>links := map (\<lambda>l. l\<lparr>order := 9007199254740991\<rparr>) (links unsafeOrder)\<rparr>)
     = Inr (unsafeOrder\<lparr>links := map (\<lambda>l. l\<lparr>order := 9007199254740991\<rparr>) (links unsafeOrder)\<rparr>)"
  by (simp_all add: unsafeOrder_def loadCatalog_def parse_def NavigationConfigSchema_def
      NavigationLinkSchema_def int'_iff isInteger_def startsWith_def setSize_def)

section \<open>The copyright line\<close>

declare digitsOf.simps [simp del]

lemma digitsOf_2024: "digitsOf 2024 = ''2024''"
  by (simp add: digitsOf.simps [of 2024] digitsOf.simps [of 202] digitsOf.simps [of 20]
      digitsOf.simps [of 2] digitChar_def)

lemma digitsOf_2025: "digitsOf 2025 = ''2025''"
  by (simp add: digitsOf.simps [of 2025] digitsOf.simps [of 202] digitsOf.simps [of 20]
      digitsOf.simps [of 2] digitChar_def)

lemma int'_of_int: "int' (of_int y) \<longleftrightarrow> \<bar>y\<bar> \<le> 9007199254740991"
proof -
  have "\<bar>of_int y :: rat\<bar> \<le> 9007199254740991 \<longleftrightarrow> \<bar>y\<bar> \<le> 9007199254740991"
    unfolding of_int_abs [symmetric] by (rule of_int_le_numeral_iff)
  then show ?thesis
    by (simp add: int'_iff isInteger_def)
qed

lemma CopyrightInfoSchema_iff:
  "CopyrightInfoSchema (getCopyrightInfo y) \<longleftrightarrow> \<bar>y\<bar> \<le> 9007199254740991"
  by (simp add: CopyrightInfoSchema_def getCopyrightInfo_def COPYRIGHT_OWNER_def int'_of_int)

lemma getCopyrightText_eq:
  "getCopyrightText y =
     (if \<bar>y\<bar> \<le> 9007199254740991
      then Inr (copyrightSign # '' '' @ numberToString y @ '' Yarson'')
      else Inl ZodError)"
  by (simp add: getCopyrightText_def Let_def parse_def CopyrightInfoSchema_iff)
     (simp add: getCopyrightInfo_def COPYRIGHT_OWNER_def)

text \<open>
  C8. \<^verbatim>\<open>getCopyrightText()\<close> returns the copyright sign, a space, the digits of the year
  on the clock at the call, a space and "Yarson"; its validation passes for every year
  that is a safe integer, far beyond the years a \<^verbatim>\<open>Date\<close> can show, and would throw only
  outside them. Each call reads the clock again: with the clock at 2024 the text is
  "(c) 2024 Yarson", at 2025 it is "(c) 2025 Yarson", and a later call at 2024 gives the
  first text again, so nothing of an earlier call is kept.
\<close>

theorem getCopyrightText_current_year:
  "getCopyrightText y =
     (if \<bar>y\<bar> \<le> 9007199254740991
      then Inr (copyrightSign # '' '' @ numberToString y @ '' Yarson'')
      else Inl ZodError)
   \<and> getCopyrightText 2024 = Inr (CHR 0xA9 # '' 2024 Yarson'')
   \<and> getCopyrightText 2025 = Inr (CHR 0xA9 # '' 2025 Yarson'')
   \<and> map getCopyrightText [2024, 2025, 2024] =
       [Inr (CHR 0xA9 # '' 2024 Yarson''), Inr (CHR 0xA9 # '' 2025 Yarson''),
        Inr (CHR 0xA9 # '' 2024 Yarson'')]"
proof -
  have "getCopyrightText 2024 = Inr (CHR 0xA9 # '' 2024 Yarson'')"
    and "getCopyrightText 2025 = Inr (CHR 0xA9 # '' 2025 Yarson'')"
    by (simp_all add: getCopyrightText_eq numberToString_def digitsOf_2024 digitsOf_2025
        copyrightSign_def)
  then show ?thesis
    by (simp add: getCopyrightText_eq [of y])
qed

section \<open>Sorting and rendering\<close>

lemma insertBy_insort_key: "insertBy compareOrder x ys = insort_key order x ys"
  by (induction ys) (simp_all add: compareOrder_def)

lemma sort'_sort_key: "sort' compareOrder xs = sort_key order xs"
  by (simp add: sort'_def sort_key_def insertBy_insort_key [abs_def])

lemma sorted_sort': "sorted (map order (sort' compareOrder xs))"
  by (simp add: sort'_sort_key)

lemma mset_sort': "mset (sort' compareOrder xs) = mset xs"
  by (simp add: sort'_sort_key)

lemma sortedLinks_eq:
  "a < length s \<Longrightarrow> sortedLinks s a = (s @ [sort' compareOrder (s ! a)], length s)"
  by (simp add: sortedLinks_def spread_def sortInPlace_def nth_append)

lemma Navigation_eq:
  "a < length s \<Longrightarrow>
   Navigation s a n b =
     (s @ [sort' compareOrder (s ! a)], renderNavigation (sort' compareOrder (s ! a)) n b)"
  by (simp add: Navigation_def sortedLinks_eq)

lemma Footer_eq:
  "a < length s \<Longrightarrow>
   Footer s a y =
     (s @ [sort' compareOrder (s ! a)],
      if \<bar>y\<bar> \<le> 9007199254740991
      then Inr (Element ''footer'' []
        [Element ''nav'' [(''aria-label'', Str ''Footer navigation'')]
           [Element ''ul'' [] (map linkItem (sort' compareOrder (s ! a)))],
         Element ''p'' [] [Text (copyrightSign # '' '' @ numberToString y @ '' Yarson'')]])
      else Inl ZodError)"
  by (simp add: Footer_def sortedLinks_eq getCopyrightText_eq)

lemma linksOf_items:
  "concat (map linksOf (map linkItem xs)) =
   map (\<lambda>l. Element ''Link'' [(''href'', Str (href l))] [Text (label l)]) xs"
  by (induction xs) (simp_all add: linkItem_def)

lemma linksOf_ul:
  "linksOf (Element ''ul'' [] (map linkItem xs)) =
   map (\<lambda>l. Element ''Link'' [(''href'', Str (href l))] [Text (label l)]) xs"
  using linksOf_items [of xs] by simp

lemma linkLabels_ul: "linkLabels (Element ''ul'' [] (map linkItem xs)) = map label xs"
  unfolding linkLabels_def linksOf_ul by (simp add: comp_def)

lemma linkLabels_desktop: "linkLabels (desktop (renderNavigation xs n b)) = map label xs"
  using linkLabels_ul [of xs] by (simp add: linkLabels_def renderNavigation_def)

lemma linkLabels_drawer:
  "map_option linkLabels (drawer (renderNavigation xs n True)) = Some (map label xs)"
  using linkLabels_ul [of xs] by (simp add: linkLabels_def renderNavigation_def)

lemma linkLabels_footer:
  "linkLabels (Element ''footer'' []
     [Element ''nav'' as [Element ''ul'' [] (map linkItem xs)], Element ''p'' [] [Text t]])
   = map label xs"
  using linkLabels_ul [of xs] by (simp add: linkLabels_def)

text \<open>
  C4. Let the catalog array stand at \<open>navLinks\<close> in the store. The header's desktop list,
  its drawer list (rendered while the menu is open) and the footer's list, rendered
  after the header on the store the header left, all show the labels of the same
  sequence: the links of the catalog sorted by \<^verbatim>\<open>order\<close>. That sequence is ascending in
  \<^verbatim>\<open>order\<close> and holds exactly the links of the catalog. (The footer renders whenever
  its copyright line does, that is for every year that is a safe integer.)
\<close>

theorem renderings_same_labels:
  assumes "navLinks < length s"
  shows "linkLabels (desktop (snd (Header s navLinks isOpen)))
           = map label (sort' compareOrder (s ! navLinks))
       \<and> map_option linkLabels (drawer (snd (Header s navLinks True)))
           = Some (map label (sort' compareOrder (s ! navLinks)))
       \<and> map_sum id linkLabels (snd (Footer (fst (Header s navLinks isOpen)) navLinks y))
           = (if \<bar>y\<bar> \<le> 9007199254740991
              then Inr (map label (sort' compareOrder (s ! navLinks)))
              else Inl ZodError)
       \<and> sorted (map order (sort' compareOrder (s ! navLinks)))
       \<and> mset (sort' compareOrder (s ! navLinks)) = mset (s ! navLinks)"
proof (intro conjI)
  show "linkLabels (desktop (snd (Header s navLinks isOpen)))
      = map label (sort' compareOrder (s ! navLinks))"
    using assms by (simp add: Header_def Navigation_eq linkLabels_desktop)
  show "map_option linkLabels (drawer (snd (Header s navLinks True)))
      = Some (map label (sort' compareOrder (s ! navLinks)))"
    using assms by (simp add: Header_def Navigation_eq linkLabels_drawer)
  have "navLinks < length (fst (Header s navLinks isOpen))"
    and "fst (Header s navLinks isOpen) ! navLinks = s ! navLinks"
    using assms by (simp_all add: Header_def Navigation_eq nth_append)
  then show "map_sum id linkLabels (snd (Footer (fst (Header s navLinks isOpen)) navLinks y))
      = (if \<bar>y\<bar> \<le> 9007199254740991
         then Inr (map label (sort' compareOrder (s ! navLinks)))
         else Inl ZodError)"
    by (simp add: Footer_eq linkLabels_footer)
  show "sorted (map order (sort' compareOrder (s ! navLinks)))"
    by (rule sorted_sort')
  show "mset (sort' compareOrder (s ! navLinks)) = mset (s ! navLinks)"
    by (rule mset_sort')
qed

lemma sort'_shuffled:
  "map label (sort' compareOrder shuffled) = [''Home'', ''Work'', ''About'', ''Contact'']"
  by (simp add: sort'_def shuffled_def compareOrder_def)

text \<open>The four links of the catalog written in another order render as Home, Work, About, Contact.\<close>

theorem renderings_same_labels_witness:
  "(0::nat) < length [shuffled]
   \<and> linkLabels (desktop (snd (Header [shuffled] 0 False)))
       = [''Home'', ''Work'', ''About'', ''Contact'']
   \<and> map_option linkLabels (drawer (snd (Header [shuffled] 0 True)))
       = Some [''Home'', ''Work'', ''About'', ''Contact'']
   \<and> map_sum id linkLabels (snd (Footer (fst (Header [shuffled] 0 False)) 0 2025))
       = Inr [''Home'', ''Work'', ''About'', ''Contact'']"
  using renderings_same_labels [of 0 "[shuffled]" False 2025]
  by (simp add: sort'_shuffled)

text \<open>
  C9. A render of \<^verbatim>\<open>Navigation\<close> or of \<^verbatim>\<open>Footer\<close> leaves every array that was in the
  store as it was, the catalog array among them, element for element and in its order:
  the sort works on the copy the render allocates. The same holds after both renders in
  a row.
\<close>

theorem render_keeps_catalog:
  assumes "navLinks < length s"
  shows "take (length s) (fst (Navigation s navLinks ariaLabel isOpen)) = s
       \<and> fst (Navigation s navLinks ariaLabel isOpen) ! navLinks = s ! navLinks
       \<and> take (length s) (fst (Footer s navLinks y)) = s
       \<and> fst (Footer s navLinks y) ! navLinks = s ! navLinks
       \<and> fst (Footer (fst (Navigation s navLinks ariaLabel isOpen)) navLinks y) ! navLinks
           = s ! navLinks"
proof -
  have n: "fst (Navigation s navLinks ariaLabel isOpen) = s @ [sort' compareOrder (s ! navLinks)]"
    using assms by (simp add: Navigation_eq)
  have f: "fst (Footer s navLinks y) = s @ [sort' compareOrder (s ! navLinks)]"
    using assms by (simp add: Footer_eq)
  have "navLinks < length (s @ [sort' compareOrder (s ! navLinks)])"
    using assms by simp
  then have "fst (Footer (s @ [sort' compareOrder (s ! navLinks)]) navLinks y) ! navLinks
      = s ! navLinks"
    using assms by (simp add: Footer_eq nth_append)
  then show ?thesis
    using assms unfolding n f by (simp add: nth_append)
qed

text \<open>The shuffled catalog is still shuffled after the header and the footer have rendered it.\<close>

theorem render_keeps_catalog_witness:
  "(0::nat) < length [shuffled]
   \<and> fst (Navigation [shuffled] 0 ''Main navigation'' True) ! 0 = shuffled
   \<and> fst (Footer [shuffled] 0 2025) ! 0 = shuffled
   \<and> fst (Footer (fst (Navigation [shuffled] 0 ''Main navigation'' True)) 0 2025) ! 0 = shuffled
   \<and> map label shuffled = [''Contact'', ''Home'', ''About'', ''Work'']"
  using render_keeps_catalog [of 0 "[shuffled]" "''Main navigation''" True 2025]
  by (simp add: shuffled_def)

text \<open>
  C10. When the \<^verbatim>\<open>links\<close> prop is an empty array, \<^verbatim>\<open>Navigation\<close> renders (it has no
  throwing path on an array): the desktop landmark holds a list with no entry, the
  button is there, and the drawer, rendered while the menu is open, holds a list with no
  entry.
\<close>

theorem Navigation_empty_links:
  assumes "linksRef < length s" and "s ! linksRef = []"
  shows "desktop (snd (Navigation s linksRef ariaLabel isOpen))
           = Element ''nav'' [(''aria-label'', Str ariaLabel)] [Element ''ul'' [] []]
       \<and> drawer (snd (Navigation s linksRef ariaLabel True))
           = Some (Element ''motion.div'' [(''ref'', Ref MenuRef)]
               [Element ''nav'' [(''aria-label'', Str ''Mobile navigation'')]
                 [Element ''ul'' [] []]])
       \<and> drawer (snd (Navigation s linksRef ariaLabel False)) = None
       \<and> linksOf (desktop (snd (Navigation s linksRef ariaLabel isOpen))) = []"
  using assms by (simp add: Navigation_eq sort'_def renderNavigation_def)

theorem Navigation_empty_links_witness:
  "(0::nat) < length [[] :: NavigationLink list] \<and> [[] :: NavigationLink list] ! 0 = []
   \<and> desktop (snd (Navigation [[]] 0 ''Main navigation'' True))
       = Element ''nav'' [(''aria-label'', Str ''Main navigation'')] [Element ''ul'' [] []]
   \<and> drawer (snd (Navigation [[]] 0 ''Main navigation'' True))
       = Some (Element ''motion.div'' [(''ref'', Ref MenuRef)]
           [Element ''nav'' [(''aria-label'', Str ''Mobile navigation'')]
             [Element ''ul'' [] []]])"
  using Navigation_empty_links [of 0 "[[]]" "''Main navigation''" True]
  by simp

section \<open>The menu and its listeners\<close>

lemma frame_refl: "frame w w"
  by (simp add: frame_def)

lemma frame_trans: "frame w v \<Longrightarrow> frame v u \<Longrightarrow> frame w u"
  by (simp add: frame_def)

lemma frame_runHandler: "frame w (runHandler h w)"
  by (cases h) (simp add: frame_def)

lemma frame_followed: "frame w v \<Longrightarrow> frame w (v\<lparr>followed := f, location := x\<rparr>)"
  by (simp add: frame_def)

lemma frame_activate: "frame w (activate el w)"
  by (cases el)
     (auto simp: Let_def frame_refl frame_runHandler frame_followed split: option.splits attr.splits)

lemma frame_runListener: "frame w (runListener ev l w)"
  by (cases l) (auto simp: frame_def handleClickOutside_def handleEscape_def closeMobileMenu_def
      split: option.splits)

lemma frame_fold:
  "frame w (fold (\<lambda>(ty, l) v. if ty = t then runListener ev l v else v) xs w)"
proof (induction xs arbitrary: w)
  case Nil
  show ?case by (simp add: frame_refl)
next
  case (Cons x xs)
  obtain ty l where x: "x = (ty, l)" by (cases x)
  show ?case
    using Cons.IH [of "if ty = t then runListener ev l w else w"] frame_runListener [of w ev l]
    by (auto simp: x intro: frame_trans)
qed

lemma frame_dispatchEvent: "frame w (dispatchEvent ev w)"
  unfolding dispatchEvent_def by (rule frame_fold)

lemma frame_deliver: "frame w (deliver ls ev w)"
  unfolding deliver_def Let_def
  by (auto split: event.splits option.splits intro: frame_trans frame_activate frame_dispatchEvent)

lemma inv_mount: "inv mount"
  by (simp add: inv_def mount_def effect_def)

lemma inv_commit:
  assumes "inv w" and "mounted w" and "frame w v"
  shows "inv (commit (isMobileMenuOpen w) v)"
  using assms
  by (auto simp: inv_def frame_def commit_def effect_def runCleanup_def held_def Let_def
      addEventListener_def removeEventListener_def split: if_splits)

lemma dispatchEvent_Nil: "listeners w = [] \<Longrightarrow> dispatchEvent ev w = w"
  by (simp add: dispatchEvent_def)

lemma inv_step:
  assumes "inv w"
  shows "inv (step ls ev w)"
proof (cases "mounted w")
  case True
  then show ?thesis
    using assms by (simp add: step_def inv_commit frame_deliver)
next
  case False
  with assms have "listeners w = []"
    by (simp add: inv_def)
  then show ?thesis
    using assms False by (simp add: step_def dispatchEvent_Nil)
qed

lemma inv_unmount: "inv w \<Longrightarrow> inv (unmount w)"
  by (auto simp: inv_def unmount_def runCleanup_def held_def removeEventListener_def split: if_splits)

lemma reachable_inv: "reachable ls w \<Longrightarrow> inv w"
  by (induction rule: reachable.induct) (simp_all add: inv_mount inv_step inv_unmount)

lemma opened_eq:
  "opened = \<lparr>mounted = True, isMobileMenuOpen = True, menuRef = Some Drawer,
     buttonRef = Some Toggle, listeners = held 0, cleanup = Some (held 0), effectRuns = 1,
     followed = [], location = ''/''\<rparr>"
  by (simp add: opened_def step_def mount_def effect_def deliver_def renderNavigation_def
      dispatchEvent_def commit_def runCleanup_def addEventListener_def held_def Let_def)

lemma opened_facts:
  "mounted opened" "isMobileMenuOpen opened" "followed opened = []"
  "listeners opened = [(''mousedown'', HandleClickOutside 0), (''keydown'', HandleEscape 0)]"
  "location opened = ''/''"
  by (simp_all add: opened_eq held_def)

lemma reachable_opened: "reachable (links NAV_LINKS) opened"
  unfolding opened_def by (intro reachable_step reachable_mount)

lemma dispatch_held:
  "listeners w = held g \<Longrightarrow>
   dispatchEvent ev w =
     (let v = (if eventType ev = ''mousedown'' then handleClickOutside (target ev) w else w)
      in if eventType ev = ''keydown'' then handleEscape (key ev) v else v)"
  by (simp add: dispatchEvent_def held_def Let_def)

lemma isOpen_removeEventListener:
  "isMobileMenuOpen (removeEventListener ty l w) = isMobileMenuOpen w"
  by (simp add: removeEventListener_def)

lemma isOpen_removeAll:
  "isMobileMenuOpen (fold (\<lambda>(ty, l). removeEventListener ty l) xs w) = isMobileMenuOpen w"
  by (induction xs arbitrary: w) (simp_all add: isOpen_removeEventListener split: prod.splits)

lemma isOpen_runCleanup: "isMobileMenuOpen (runCleanup w) = isMobileMenuOpen w"
  by (simp add: runCleanup_def isOpen_removeAll split: option.splits)

lemma isOpen_addEventListener:
  "isMobileMenuOpen (addEventListener ty l w) = isMobileMenuOpen w"
  by (simp add: addEventListener_def)

lemma isOpen_effect: "isMobileMenuOpen (effect w) = isMobileMenuOpen w"
  by (simp add: effect_def Let_def isOpen_addEventListener)

lemma isOpen_commit: "isMobileMenuOpen (commit prev w) = isMobileMenuOpen w"
  by (simp add: commit_def Let_def isOpen_effect isOpen_runCleanup)

lemma length_sort': "length (sort' compareOrder xs) = length xs"
  by (simp add: sort'_sort_key)

lemma elementAt_InlineLink:
  "elementAt (renderNavigation xs n b) (InlineLink i) =
     (if i < length xs
      then Some (Element ''Link'' [(''href'', Str (href (xs ! i)))] [Text (label (xs ! i))])
      else None)"
  using linksOf_ul [of xs] by (simp add: renderNavigation_def nthOpt_def)

lemma elementAt_DrawerLink:
  "elementAt (renderNavigation xs n True) (DrawerLink i) =
     (if i < length xs
      then Some (Element ''Link'' [(''href'', Str (href (xs ! i)))] [Text (label (xs ! i))])
      else None)"
  using linksOf_ul [of xs] by (simp add: renderNavigation_def nthOpt_def)

lemma activate_Link:
  "activate (Element ''Link'' [(''href'', Str u)] c) w =
     w\<lparr>followed := followed w @ [u], location := resolve (location w) u\<rparr>"
  by simp

lemma dispatchEvent_Click: "inv w \<Longrightarrow> dispatchEvent (Click t) w = w"
  by (auto simp: inv_def dispatchEvent_def held_def split: if_splits)

lemma followed_removeEventListener:
  "followed (removeEventListener ty l w) = followed w"
  by (simp add: removeEventListener_def)

lemma followed_removeAll:
  "followed (fold (\<lambda>(ty, l). removeEventListener ty l) xs w) = followed w"
  by (induction xs arbitrary: w) (simp_all add: followed_removeEventListener split: prod.splits)

lemma followed_runCleanup: "followed (runCleanup w) = followed w"
  by (simp add: runCleanup_def followed_removeAll split: option.splits)

lemma followed_addEventListener: "followed (addEventListener ty l w) = followed w"
  by (simp add: addEventListener_def)

lemma followed_effect: "followed (effect w) = followed w"
  by (simp add: effect_def Let_def followed_addEventListener)

lemma followed_commit: "followed (commit prev w) = followed w"
  by (simp add: commit_def Let_def followed_effect followed_runCleanup)

lemma location_removeEventListener:
  "location (removeEventListener ty l w) = location w"
  by (simp add: removeEventListener_def)

lemma location_removeAll:
  "location (fold (\<lambda>(ty, l). removeEventListener ty l) xs w) = location w"
  by (induction xs arbitrary: w) (simp_all add: location_removeEventListener split: prod.splits)

lemma location_runCleanup: "location (runCleanup w) = location w"
  by (simp add: runCleanup_def location_removeAll split: option.splits)

lemma location_addEventListener: "location (addEventListener ty l w) = location w"
  by (simp add: addEventListener_def)

lemma location_effect: "location (effect w) = location w"
  by (simp add: effect_def Let_def location_addEventListener)

lemma location_commit: "location (commit prev w) = location w"
  by (simp add: commit_def Let_def location_effect location_runCleanup)

lemma inv_followed: "inv w \<Longrightarrow> inv (w\<lparr>followed := f, location := x\<rparr>)"
  by (simp add: inv_def)

lemma step_Click_link:
  assumes "inv w" and "mounted w" and "i < length ls"
    and "t = InlineLink i \<or> t = DrawerLink i \<and> isMobileMenuOpen w"
  shows "isMobileMenuOpen (step ls (Click t) w) = isMobileMenuOpen w
       \<and> followed (step ls (Click t) w) = followed w @ [href (sort' compareOrder ls ! i)]
       \<and> location (step ls (Click t) w) = resolve (location w) (href (sort' compareOrder ls ! i))"
proof -
  let ?xs = "sort' compareOrder ls"
  have e: "elementAt (renderNavigation ?xs ''Main navigation'' (isMobileMenuOpen w)) t =
      Some (Element ''Link'' [(''href'', Str (href (?xs ! i)))] [Text (label (?xs ! i))])"
    using assms(3,4)
    by (auto simp: elementAt_InlineLink elementAt_DrawerLink length_sort' simp del: elementAt.simps)
  have "deliver ls (Click t) w =
      w\<lparr>followed := followed w @ [href (?xs ! i)], location := resolve (location w) (href (?xs ! i))\<rparr>"
    using dispatchEvent_Click [OF inv_followed [OF assms(1)]]
    by (simp add: deliver_def Let_def e del: elementAt.simps)
  then show ?thesis
    using assms(2) by (simp add: step_def isOpen_commit followed_commit location_commit)
qed

lemma step_MouseDown_inside:
  assumes "inv w" and "mounted w" and "isMobileMenuOpen w"
    and "contains Toggle t \<or> contains Drawer t"
  shows "step ls (MouseDown t) w = w"
proof -
  from assms have l: "listeners w = held (effectRuns w - 1)"
    and r: "menuRef w = Some Drawer" "buttonRef w = Some Toggle"
    by (simp_all add: inv_def)
  have "deliver ls (MouseDown t) w =
      (if contains Toggle t \<or> contains Drawer t then w else closeMobileMenu w)"
    by (simp add: deliver_def Let_def dispatch_held [OF l] handleClickOutside_def r)
  with assms(4) have d: "deliver ls (MouseDown t) w = w"
    by (simp only: if_True)
  show ?thesis
    using assms(2,3) r unfolding step_def d by (simp add: commit_def)
qed

lemma inv_opened: "inv opened"
  using reachable_opened by (rule reachable_inv)

lemma sort'_NAV_LINKS: "sort' compareOrder (links NAV_LINKS) = links NAV_LINKS"
  by (simp add: sort'_def NAV_LINKS_def compareOrder_def)

lemma NAV_LINKS_nth:
  "links NAV_LINKS ! 0 = \<lparr>id' = ''home'', label = ''Home'', href = ''/'', action = ScrollToTop, order = 0\<rparr>"
  "links NAV_LINKS ! Suc 0 = \<lparr>id' = ''work'', label = ''Work'', href = ''#'', action = Placeholder, order = 1\<rparr>"
  "length (links NAV_LINKS) = 4"
  by (simp_all add: NAV_LINKS_def)

text \<open>
  C5. In every state the widget can reach, the listeners on \<^verbatim>\<open>document\<close> are exactly
  the \<^verbatim>\<open>mousedown\<close> and the \<^verbatim>\<open>keydown\<close> handler of the last effect run while the widget is
  mounted and the menu is open, and none otherwise: they are registered when the menu
  opens, removed whenever it closes, and unmounting leaves none behind.
\<close>

theorem listeners_held_while_open:
  assumes "reachable ls w"
  shows "listeners w =
           (if mounted w \<and> isMobileMenuOpen w
            then [(''mousedown'', HandleClickOutside (effectRuns w - 1)),
                  (''keydown'', HandleEscape (effectRuns w - 1))]
            else [])
       \<and> listeners (unmount w) = []"
proof -
  have "inv w" using assms by (rule reachable_inv)
  moreover from this have "inv (unmount w)" by (rule inv_unmount)
  ultimately show ?thesis
    by (auto simp: inv_def held_def unmount_def)
qed

theorem listeners_held_while_open_witness:
  "reachable (links NAV_LINKS) opened
   \<and> listeners opened = [(''mousedown'', HandleClickOutside 0), (''keydown'', HandleEscape 0)]
   \<and> listeners (unmount opened) = []"
  using listeners_held_while_open [OF reachable_opened] reachable_opened opened_facts
  by simp

text \<open>
  C6, as the code has it. The handler is registered for \<^verbatim>\<open>keydown\<close>: while the menu is
  open, an Escape key-down event closes it, whatever its target \<open>t\<close>.
\<close>

theorem escape_keydown_closes:
  assumes "reachable ls w" and "mounted w" and "isMobileMenuOpen w"
  shows "\<not> isMobileMenuOpen (step ls (KeyDown t ''Escape'') w)"
proof -
  have "inv w" using assms(1) by (rule reachable_inv)
  with assms have l: "listeners w = held (effectRuns w - 1)"
    by (simp add: inv_def)
  have "deliver ls (KeyDown t ''Escape'') w = closeMobileMenu w"
    by (simp add: deliver_def Let_def dispatch_held [OF l] handleEscape_def)
  then show ?thesis
    using assms by (simp add: step_def isOpen_commit closeMobileMenu_def)
qed

theorem escape_keydown_closes_witness:
  "reachable (links NAV_LINKS) opened \<and> mounted opened \<and> isMobileMenuOpen opened
   \<and> \<not> isMobileMenuOpen (step (links NAV_LINKS) (KeyDown (InlineLink 2) ''Escape'') opened)"
  using escape_keydown_closes [OF reachable_opened, of "InlineLink 2"] reachable_opened
    opened_facts
  by simp

text \<open>
  C6 as the specification words it fails: with the menu open, an Escape key-up event
  finds no listener for its type and the menu stays open.
\<close>

theorem escape_keyup_counterexample:
  "reachable (links NAV_LINKS) opened \<and> mounted opened \<and> isMobileMenuOpen opened
   \<and> isMobileMenuOpen (step (links NAV_LINKS) (KeyUp Elsewhere ''Escape'') opened)"
proof -
  have "isMobileMenuOpen (step (links NAV_LINKS) (KeyUp Elsewhere ''Escape'') opened)"
    by (simp add: opened_eq step_def deliver_def dispatchEvent_def held_def isOpen_commit)
  then show ?thesis
    using reachable_opened opened_facts by simp
qed

text \<open>
  C7. While the menu is open, a press of the pointer (the \<^verbatim>\<open>mousedown\<close> event the code
  listens for) leaves the menu open exactly when its target lies inside the toggle
  button or inside the drawer panel; a press anywhere else closes it.
\<close>

theorem mousedown_outside_closes:
  assumes "reachable ls w" and "mounted w" and "isMobileMenuOpen w"
  shows "isMobileMenuOpen (step ls (MouseDown t) w) \<longleftrightarrow> contains Toggle t \<or> contains Drawer t"
proof -
  have "inv w" using assms(1) by (rule reachable_inv)
  with assms have l: "listeners w = held (effectRuns w - 1)"
    and r: "menuRef w = Some Drawer" "buttonRef w = Some Toggle"
    by (simp_all add: inv_def)
  have d: "deliver ls (MouseDown t) w =
      (if contains Toggle t \<or> contains Drawer t then w else closeMobileMenu w)"
    by (simp add: deliver_def Let_def dispatch_held [OF l] handleClickOutside_def r)
  show ?thesis
    using assms unfolding step_def d
    by (simp add: isOpen_commit closeMobileMenu_def)
qed

theorem mousedown_outside_closes_witness:
  "reachable (links NAV_LINKS) opened \<and> mounted opened \<and> isMobileMenuOpen opened
   \<and> \<not> isMobileMenuOpen (step (links NAV_LINKS) (MouseDown Elsewhere) opened)
   \<and> \<not> isMobileMenuOpen (step (links NAV_LINKS) (MouseDown (InlineLink 0)) opened)
   \<and> isMobileMenuOpen (step (links NAV_LINKS) (MouseDown (DrawerLink 1)) opened)
   \<and> isMobileMenuOpen (step (links NAV_LINKS) (MouseDown ToggleIcon) opened)"
  using mousedown_outside_closes [OF reachable_opened, of Elsewhere]
    mousedown_outside_closes [OF reachable_opened, of "InlineLink 0"]
    mousedown_outside_closes [OF reachable_opened, of "DrawerLink 1"]
    mousedown_outside_closes [OF reachable_opened, of ToggleIcon]
    reachable_opened opened_facts
  by simp

section \<open>Activating a link\<close>

text \<open>
  C3, on the code. With the menu open, the user presses and clicks the second link of the
  drawer, "Work", whose action is \<^verbatim>\<open>placeholder\<close>. The press lands inside the drawer, the
  rendered link has no click handler, and so the menu is still open after the click and
  the href \<^verbatim>\<open>#\<close> has been followed.
\<close>

theorem placeholder_drawer_link_keeps_menu_open:
  "action (sort' compareOrder (links NAV_LINKS) ! 1) = Placeholder
   \<and> isMobileMenuOpen opened
   \<and> isMobileMenuOpen (step (links NAV_LINKS) (Click (DrawerLink 1))
        (step (links NAV_LINKS) (MouseDown (DrawerLink 1)) opened))
   \<and> followed (step (links NAV_LINKS) (Click (DrawerLink 1))
        (step (links NAV_LINKS) (MouseDown (DrawerLink 1)) opened)) = [''#'']"
proof -
  have o: "mounted opened" "isMobileMenuOpen opened" "followed opened = []"
    by (simp_all add: opened_eq)
  have m: "step (links NAV_LINKS) (MouseDown (DrawerLink 1)) opened = opened"
    using inv_opened o by (simp add: step_MouseDown_inside)
  have n: "(1::nat) < length (links NAV_LINKS)"
    by (simp add: NAV_LINKS_nth)
  show ?thesis
    unfolding m
    using step_Click_link [OF inv_opened o(1) n, of "DrawerLink 1"] o
    by (simp add: sort'_NAV_LINKS NAV_LINKS_nth)
qed

text \<open>
  C2, on the code. The catalog \<open>aboutTop\<close> passes the schema; its link has the action
  \<^verbatim>\<open>scroll-to-top\<close> and the href \<^verbatim>\<open>/about\<close>. In the desktop list and in the drawer the link
  is rendered as a \<^verbatim>\<open>Link\<close> with that href and no click handler. On the homepage, a
  click on it takes the page from \<^verbatim>\<open>/\<close> to \<^verbatim>\<open>/about\<close>: the navigation is not suppressed
  and the URL changes.
\<close>

theorem scroll_to_top_link_changes_location:
  "loadCatalog noUrl \<lparr>links = aboutTop\<rparr> = Inr \<lparr>links = aboutTop\<rparr>
   \<and> action (sort' compareOrder aboutTop ! 0) = ScrollToTop
   \<and> elementAt (renderNavigation (sort' compareOrder aboutTop) ''Main navigation'' True)
        (InlineLink 0) = Some (Element ''Link'' [(''href'', Str ''/about'')] [Text ''Top''])
   \<and> elementAt (renderNavigation (sort' compareOrder aboutTop) ''Main navigation'' True)
        (DrawerLink 0) = Some (Element ''Link'' [(''href'', Str ''/about'')] [Text ''Top''])
   \<and> location mount = ''/''
   \<and> location (step aboutTop (Click (InlineLink 0)) mount) = ''/about''
   \<and> location (step aboutTop (Click (DrawerLink 0)) (step aboutTop (Click Toggle) mount))
       = ''/about''"
proof -
  have s: "sort' compareOrder aboutTop = aboutTop"
    by (simp add: sort'_def aboutTop_def)
  have a: "aboutTop ! 0 =
      \<lparr>id' = ''top'', label = ''Top'', href = ''/about'', action = ScrollToTop, order = 0\<rparr>"
    and n: "0 < length aboutTop"
    by (simp_all add: aboutTop_def)
  have r: "resolve ''/'' ''/about'' = ''/about''"
    by (simp add: resolve_def startsWith_def)
  have mt: "mounted mount" "location mount = ''/''"
    by (simp_all add: mount_def effect_def)
  have t: "step aboutTop (Click Toggle) mount = opened"
    unfolding opened_eq
    by (simp add: step_def mount_def effect_def deliver_def renderNavigation_def
        dispatchEvent_def commit_def runCleanup_def addEventListener_def held_def Let_def)
  have "loadCatalog noUrl \<lparr>links = aboutTop\<rparr> = Inr \<lparr>links = aboutTop\<rparr>"
    by (simp add: aboutTop_def loadCatalog_def parse_def NavigationConfigSchema_def
        NavigationLinkSchema_def int'_iff isInteger_def startsWith_def setSize_def)
  moreover have "location (step aboutTop (Click (InlineLink 0)) mount) = ''/about''"
    using step_Click_link [OF inv_mount mt(1) n, of "InlineLink 0"]
    by (simp add: s a mt r)
  moreover have "location (step aboutTop (Click (DrawerLink 0)) opened) = ''/about''"
    using step_Click_link [OF inv_opened opened_facts(1) n, of "DrawerLink 0"] opened_facts
    by (simp add: s a r)
  ultimately show ?thesis
    using n unfolding t
    by (simp add: s a mt elementAt_InlineLink elementAt_DrawerLink del: elementAt.simps)
qed

end
